theory Spec2Isabelle
  imports Complex_Main "HOL-Library.AList"
begin

section \<open>JavaScript values\<close>

text \<open>
  The content store keeps plain JavaScript objects: the items it builds itself and the
  objects that \<open>JSON.parse\<close> returns on rehydration. A value is one of the JSON shapes.
  A number is a rational (\<open>NaN\<close> and the infinities are not JSON and are left out); an
  object is an association list in insertion order, read with \<open>map_of\<close>, so that a key
  that is absent reads as \<open>None\<close> (JavaScript's \<open>undefined\<close>).
\<close>

datatype jsval =
    JNull
  | JBool bool
  | JNum rat
  | JStr string
  | JArr "jsval list"
  | JObj "(string \<times> jsval) list"

type_synonym jsobj = "(string \<times> jsval) list"

text \<open>Outcome of a call that may throw.\<close>

datatype 'a completion = Throw | Normal 'a

text \<open>\<open>!v\<close> is false exactly on the truthy values.\<close>

fun truthy :: "jsval option \<Rightarrow> bool" where
  "truthy None = False"
| "truthy (Some JNull) = False"
| "truthy (Some (JBool b)) = b"
| "truthy (Some (JNum n)) = (n \<noteq> 0)"
| "truthy (Some (JStr s)) = (s \<noteq> [])"
| "truthy (Some (JArr xs)) = True"
| "truthy (Some (JObj kvs)) = True"

text \<open>\<open>typeof v === 'number'\<close> on a property read.\<close>

fun is_number :: "jsval option \<Rightarrow> bool" where
  "is_number (Some (JNum n)) = True"
| "is_number _ = False"

text \<open>
  \<open>{...tgt, ...src}\<close>: the own keys of \<open>src\<close>, each once and in insertion order, are
  written into a copy of \<open>tgt\<close>. \<open>{...item, k: v}\<close> is \<open>AList.update k v item\<close>: a key that
  exists keeps its place, a new key goes to the end.
\<close>

definition assign :: "jsobj \<Rightarrow> jsobj \<Rightarrow> jsobj" where
  "assign tgt src = fold (\<lambda>(k, v). AList.update k v) (AList.clearjunk src) tgt"

text \<open>
  Assignment \<open>obj[k] = v\<close> of a string \<open>v\<close> to an object that was created as \<open>{}\<close> and filled
  by such assignments only. The key \<open>__proto__\<close> reaches the setter that every object
  inherits, which ignores a string: no property is created. Any other key that exists
  keeps its place and takes the new value. A new key is created; the own keys are
  enumerated with the array indices first (the canonical decimal strings of
  \<open>0, ..., 2^32 - 2\<close>), in ascending numeric order, and then the other keys in the order
  of their creation, and the list is kept in that order.
\<close>

definition digit_value :: "char \<Rightarrow> nat option" where
  "digit_value c =
     map_of [(CHR ''0'', 0), (CHR ''1'', 1), (CHR ''2'', 2), (CHR ''3'', 3), (CHR ''4'', 4),
             (CHR ''5'', 5), (CHR ''6'', 6), (CHR ''7'', 7), (CHR ''8'', 8), (CHR ''9'', 9)] c"

fun decimal_value :: "nat \<Rightarrow> string \<Rightarrow> nat option" where
  "decimal_value acc [] = Some acc"
| "decimal_value acc (c # cs) =
     (case digit_value c of None \<Rightarrow> None | Some d \<Rightarrow> decimal_value (10 * acc + d) cs)"

definition array_index :: "string \<Rightarrow> nat option" where
  "array_index k =
     (if k = [] \<or> (hd k = CHR ''0'' \<and> k \<noteq> ''0'') then None
      else (case decimal_value 0 k of
              None \<Rightarrow> None
            | Some n \<Rightarrow> if n \<le> 4294967294 then Some n else None))"

fun insert_index_key :: "nat \<Rightarrow> string \<Rightarrow> 'v \<Rightarrow> (string \<times> 'v) list \<Rightarrow> (string \<times> 'v) list" where
  "insert_index_key n k v [] = [(k, v)]"
| "insert_index_key n k v (p # rest) =
     (case array_index (fst p) of
        Some m \<Rightarrow> if m < n then p # insert_index_key n k v rest else (k, v) # p # rest
      | None \<Rightarrow> (k, v) # p # rest)"

definition js_set :: "string \<Rightarrow> 'v \<Rightarrow> (string \<times> 'v) list \<Rightarrow> (string \<times> 'v) list" where
  "js_set k v obj =
     (if k = ''__proto__'' then obj
      else if map_of obj k \<noteq> None then AList.update k v obj
      else (case array_index k of
              Some n \<Rightarrow> insert_index_key n k v obj
            | None \<Rightarrow> obj @ [(k, v)]))"

text \<open>
  The names that every plain object inherits from \<open>Object.prototype\<close>: a read \<open>obj[k]\<close> under
  such a name gives a function or object of the runtime when \<open>obj\<close> has no own property \<open>k\<close>.
\<close>

definition object_prototype_names :: "string list" where
  "object_prototype_names =
     [''__proto__'', ''constructor'', ''hasOwnProperty'', ''isPrototypeOf'',
      ''propertyIsEnumerable'', ''toLocaleString'', ''toString'', ''valueOf'',
      ''__defineGetter__'', ''__defineSetter__'', ''__lookupGetter__'', ''__lookupSetter__'']"

text \<open>\<open>xs.map((item, index) => f(item, index))\<close>.\<close>

definition map_index :: "('a \<Rightarrow> nat \<Rightarrow> 'b) \<Rightarrow> 'a list \<Rightarrow> 'b list" where
  "map_index f xs = map (\<lambda>(index, item). f item index) (enumerate 0 xs)"

text \<open>\<open>xs.findIndex(p)\<close>; \<open>None\<close> is the result \<open>-1\<close>.\<close>

fun findIndex :: "('a \<Rightarrow> bool) \<Rightarrow> 'a list \<Rightarrow> nat option" where
  "findIndex p [] = None"
| "findIndex p (x # xs) = (if p x then Some 0 else map_option Suc (findIndex p xs))"

section \<open>Content store (ContentContext.tsx)\<close>

subsection \<open>Structural validator and rehydration\<close>

definition validTypes :: "string list" where
  "validTypes = [''text'', ''title'', ''table'', ''button'', ''card'', ''grid'']"

text \<open>
  \<open>validateContent\<close>: a value that is falsy or not of type \<open>object\<close> is rejected. An array
  is of type \<open>object\<close>, but a parsed array has no \<open>id\<close> property, so the second test
  rejects it. \<open>validTypes.includes\<close> compares with a string, so only a string passes.
\<close>

fun validateContent :: "jsval \<Rightarrow> bool" where
  "validateContent (JObj baseContent) =
     (if \<not> truthy (map_of baseContent ''id'') \<or> \<not> truthy (map_of baseContent ''type'')
         \<or> \<not> is_number (map_of baseContent ''order'')
      then False
      else (case map_of baseContent ''type'' of
              Some (JStr t) \<Rightarrow> t \<in> set validTypes
            | _ \<Rightarrow> False))"
| "validateContent (JArr xs) = False"
| "validateContent JNull = False"
| "validateContent (JBool b) = False"
| "validateContent (JNum n) = False"
| "validateContent (JStr s) = False"

text \<open>The cast \<open>content is Content\<close>: a validated value is an object, read as its fields.\<close>

fun object_fields :: "jsval \<Rightarrow> jsobj" where
  "object_fields (JObj kvs) = kvs"
| "object_fields _ = []"

text \<open>
  The load effect. \<open>savedContents\<close> is what \<open>localStorage.getItem\<close> gave (\<open>None\<close> is
  \<open>null\<close>), \<open>JSON_parse\<close> stands for \<open>JSON.parse\<close>. The result is the collection after
  the effect; the state starts as \<open>[]\<close> and stays so when nothing is stored (\<open>null\<close> and
  the empty string are falsy).
\<close>

definition loadContents ::
  "(string \<Rightarrow> jsval completion) \<Rightarrow> string option completion \<Rightarrow> jsobj list" where
  "loadContents JSON_parse savedContents =
     (case savedContents of
        Throw \<Rightarrow> []
      | Normal None \<Rightarrow> []
      | Normal (Some s) \<Rightarrow>
          if s = [] then []
          else (case JSON_parse s of
                  Throw \<Rightarrow> []
                | Normal parsedContents \<Rightarrow>
                    (case parsedContents of
                       JArr xs \<Rightarrow> if list_all validateContent xs then map object_fields xs else []
                     | _ \<Rightarrow> [])))"

subsection \<open>Operations\<close>

text \<open>
  \<open>uuid\<close> is the result of \<open>uuidv4()\<close>, \<open>now\<close> that of \<open>new Date().toISOString()\<close>. Where the
  clock is read inside a \<open>map\<close> callback, \<open>now index\<close> is the reading taken at that position.

  \<open>addContent\<close> takes \<open>order\<close> from \<open>contents.length\<close> of the render that created the callback
  (\<open>contents_length\<close>) and appends to the state \<open>prev\<close> that the updater receives.
\<close>

text \<open>\<open>item.id === id\<close> for a string \<open>id\<close>.\<close>

definition has_id :: "string \<Rightarrow> jsobj \<Rightarrow> bool" where
  "has_id ident item \<longleftrightarrow> map_of item ''id'' = Some (JStr ident)"

definition addContent ::
  "nat \<Rightarrow> jsobj \<Rightarrow> string \<Rightarrow> string \<Rightarrow> jsobj list \<Rightarrow> jsobj list" where
  "addContent contents_length contentData uuid now prev =
     (let newContent =
        AList.update ''updatedAt'' (JStr now)
          (AList.update ''createdAt'' (JStr now)
            (AList.update ''order'' (JNum (of_nat contents_length))
              (AList.update ''id'' (JStr uuid) contentData)))
      in prev @ [newContent])"

definition updateContent ::
  "string \<Rightarrow> jsobj \<Rightarrow> (nat \<Rightarrow> string) \<Rightarrow> jsobj list \<Rightarrow> jsobj list" where
  "updateContent ident contentUpdate now prev =
     map_index (\<lambda>item index.
        if has_id ident item
        then AList.update ''updatedAt'' (JStr (now index)) (assign item contentUpdate)
        else item) prev"

definition deleteContent :: "string \<Rightarrow> jsobj list \<Rightarrow> jsobj list" where
  "deleteContent ident prev =
     (let filtered = filter (\<lambda>item. \<not> has_id ident item) prev
      in map_index (\<lambda>item index. AList.update ''order'' (JNum (of_nat index)) item) filtered)"

text \<open>
  \<open>Math.max(0, Math.min(newOrder, items.length))\<close>, then the integer part that
  \<open>splice\<close> takes of its start index.
\<close>

definition targetOrder :: "rat \<Rightarrow> nat \<Rightarrow> nat" where
  "targetOrder newOrder n = nat \<lfloor>max 0 (min newOrder (of_nat n))\<rfloor>"

definition reorderContent ::
  "string \<Rightarrow> rat \<Rightarrow> (nat \<Rightarrow> string) \<Rightarrow> jsobj list \<Rightarrow> jsobj list" where
  "reorderContent ident newOrder now prev =
     (case findIndex (has_id ident) prev of
        None \<Rightarrow> prev
      | Some itemIndex \<Rightarrow>
          (let movedItem = prev ! itemIndex;
               items = take itemIndex prev @ drop (Suc itemIndex) prev;
               t = targetOrder newOrder (length items);
               items' = take t items @ [movedItem] @ drop t items
           in map_index (\<lambda>item index.
                AList.update ''updatedAt'' (JStr (now index))
                  (AList.update ''order'' (JNum (of_nat index)) item)) items'))"

text \<open>
  The snapshot \<open>[...contents].sort((a, b) => a.order - b.order)\<close>. The sort is stable.
  When some \<open>order\<close> is not a number the comparator does not order the items and the
  result is left open (\<open>None\<close>).
\<close>

definition order_of :: "jsobj \<Rightarrow> rat option" where
  "order_of item = (case map_of item ''order'' of Some (JNum n) \<Rightarrow> Some n | _ \<Rightarrow> None)"

definition sortedContents :: "jsobj list \<Rightarrow> jsobj list option" where
  "sortedContents contents =
     (if list_all (\<lambda>item. order_of item \<noteq> None) contents
      then Some (sort_key (\<lambda>item. the (order_of item)) contents)
      else None)"

text \<open>
  Store operations as a consumer calls them. A call queues a state updater; the updaters
  run in call order, each on the state \<open>prev\<close> that the one before left. The callbacks a
  handler holds are those of the render it belongs to, so every \<open>addContent\<close> call of one
  handler reads the same \<open>contents.length\<close>, that of the rendered collection
  (\<open>contents_length\<close>); the next render happens after the handler has returned.
\<close>

datatype store_op =
    Add jsobj string string
  | Delete string
  | Reorder string rat "nat \<Rightarrow> string"

fun apply_op :: "nat \<Rightarrow> store_op \<Rightarrow> jsobj list \<Rightarrow> jsobj list" where
  "apply_op contents_length (Add contentData uuid now) prev =
     addContent contents_length contentData uuid now prev"
| "apply_op contents_length (Delete ident) prev = deleteContent ident prev"
| "apply_op contents_length (Reorder ident newOrder now) prev =
     reorderContent ident newOrder now prev"

text \<open>One handler: its calls, made from the render of \<open>contents\<close>.\<close>

definition run_handler :: "store_op list \<Rightarrow> jsobj list \<Rightarrow> jsobj list" where
  "run_handler ops contents = fold (apply_op (length contents)) ops contents"

text \<open>A sequence of handlers on the store that starts empty, with a render after each.\<close>

definition run_events :: "store_op list list \<Rightarrow> jsobj list" where
  "run_events events = fold run_handler events []"

text \<open>A sequence of operations with a render after every single one.\<close>

definition run_ops :: "store_op list \<Rightarrow> jsobj list" where
  "run_ops ops = run_events (map (\<lambda>op. [op]) ops)"

text \<open>The \<open>order\<close> fields, in list order, are \<open>0, 1, ..., N - 1\<close>.\<close>

definition orders_dense :: "jsobj list \<Rightarrow> bool" where
  "orders_dense contents =
     (map (\<lambda>item. map_of item ''order'') contents
        = map (\<lambda>i. Some (JNum (of_nat i))) [0..<length contents])"

text \<open>An item without the two fields that renumbering rewrites.\<close>

definition content_of :: "jsobj \<Rightarrow> jsobj" where
  "content_of item = AList.delete ''updatedAt'' (AList.delete ''order'' item)"

text \<open>The \<open>order\<close> values are a permutation of \<open>0, ..., N - 1\<close>.\<close>

definition orders_contiguous :: "jsobj list \<Rightarrow> bool" where
  "orders_contiguous contents \<longleftrightarrow>
     distinct (map (\<lambda>item. map_of item ''order'') contents)
     \<and> set (map (\<lambda>item. map_of item ''order'') contents)
         = set (map (\<lambda>i. Some (JNum (of_nat i))) [0..<length contents])"

section \<open>Table form (TableForm.tsx)\<close>

text \<open>
  The working model of the form: columns carry a synthetic id next to the editable
  header, and a row maps column ids to cell text (\<open>Record<string, string>\<close>, an
  association list in insertion order).
\<close>

record column =
  col_id :: string
  header :: string

record TableFormValues =
  title :: string
  columns :: "column list"
  data :: "(string \<times> string) list list"

text \<open>
  The field arrays of the form library (react-hook-form, not part of the repository) are
  taken as the lists they manage: \<open>append\<close> adds an entry at the end, \<open>remove(index)\<close>
  deletes the entry at \<open>index\<close>, and \<open>fields\<close> and \<open>getValues\<close> read the current values.
  The handlers of the form are clicks, one per handler, each on the settled form state.
\<close>

definition appendColumn :: "column \<Rightarrow> TableFormValues \<Rightarrow> TableFormValues" where
  "appendColumn col values = values\<lparr>columns := columns values @ [col]\<rparr>"

definition removeColumn :: "nat \<Rightarrow> TableFormValues \<Rightarrow> TableFormValues" where
  "removeColumn index values =
     values\<lparr>columns := take index (columns values) @ drop (Suc index) (columns values)\<rparr>"

definition appendData :: "(string \<times> string) list \<Rightarrow> TableFormValues \<Rightarrow> TableFormValues" where
  "appendData row values = values\<lparr>data := data values @ [row]\<rparr>"

text \<open>\<open>form.setValue(`data.${rowIndex}.${key}`, v)\<close> on an existing row.\<close>

definition setValue_data :: "nat \<Rightarrow> string \<Rightarrow> string \<Rightarrow> TableFormValues \<Rightarrow> TableFormValues" where
  "setValue_data rowIndex key v values =
     values\<lparr>data := (data values)[rowIndex := AList.update key v (data values ! rowIndex)]\<rparr>"

text \<open>\<open>newColId\<close> is the result of \<open>uuidv4()\<close>; \<open>dataFields\<close> are the rows before the call.\<close>

definition handleAddColumn :: "string \<Rightarrow> TableFormValues \<Rightarrow> TableFormValues" where
  "handleAddColumn newColId values =
     fold (\<lambda>rowIndex. setValue_data rowIndex newColId [])
       [0..<length (data values)]
       (appendColumn \<lparr>col_id = newColId, header = []\<rparr> values)"

text \<open>
  \<open>getValues\<close> of a path that does not exist is \<open>undefined\<close>, and \<open>delete newRow[undefined]\<close>
  deletes the key \<open>"undefined"\<close>.
\<close>

definition handleRemoveColumn :: "nat \<Rightarrow> TableFormValues \<Rightarrow> TableFormValues" where
  "handleRemoveColumn index values =
     (let colIdToRemove =
            (if index < length (columns values) then col_id (columns values ! index)
             else ''undefined'');
          values' = removeColumn index values;
          currentData = data values';
          updatedData = map (\<lambda>row. AList.delete colIdToRemove row) currentData
      in values'\<lparr>data := updatedData\<rparr>)"

text \<open>
  The remove button of column \<open>index\<close> is disabled while \<open>columnFields.length <= 1\<close>: a
  click then does nothing.
\<close>

definition clickRemoveColumn :: "nat \<Rightarrow> TableFormValues \<Rightarrow> TableFormValues" where
  "clickRemoveColumn index values =
     (if length (columns values) \<le> 1 then values else handleRemoveColumn index values)"

text \<open>
  \<open>useFieldArray\<close> returns as \<open>fields\<close> the entries of the array, each with its \<open>id\<close> property
  set to the key that the library generated for the entry (the key name defaults to \<open>id\<close>;
  the form uses \<open>field.id\<close> of columns and of rows, which carry no id, as React keys).
  \<open>keys\<close> are the generated keys in array order.
\<close>

definition fieldArrayFields :: "string list \<Rightarrow> column list \<Rightarrow> column list" where
  "fieldArrayFields keys cols = map (\<lambda>(key, col). col\<lparr>col_id := key\<rparr>) (zip keys cols)"

text \<open>\<open>handleAddRow\<close> iterates \<open>columnFields\<close>, the \<open>fields\<close> of the column array.\<close>

definition handleAddRow :: "column list \<Rightarrow> TableFormValues \<Rightarrow> TableFormValues" where
  "handleAddRow columnFields values =
     (let newRow = fold (\<lambda>col newRow. js_set (col_id col) [] newRow) columnFields []
      in appendData newRow values)"

text \<open>
  \<open>row[key]\<close> is a built-in of the runtime, not text, when the row has no cell under a key
  that names an inherited property.
\<close>

definition reads_builtin :: "(string \<times> string) list \<Rightarrow> string \<Rightarrow> bool" where
  "reads_builtin row key \<longleftrightarrow> map_of row key = None \<and> key \<in> set object_prototype_names"

text \<open>
  \<open>row[key] || ""\<close> for a read that is text or \<open>undefined\<close>: a missing cell and an empty cell
  both give the empty string.
\<close>

definition cell_or_empty :: "(string \<times> string) list \<Rightarrow> string \<Rightarrow> string" where
  "cell_or_empty row key =
     (case map_of row key of None \<Rightarrow> [] | Some v \<Rightarrow> if v = [] then [] else v)"

text \<open>
  The row projection of \<open>onSubmit\<close>: from column ids back to header labels, by assignment
  \<open>newRow[col.header] = row[col.id] || ""\<close> in column order. The result is left open (\<open>None\<close>)
  when a cell read is a built-in: the row then holds a value that is not text.
\<close>

definition projectRow ::
  "column list \<Rightarrow> (string \<times> string) list \<Rightarrow> (string \<times> string) list option" where
  "projectRow cols row =
     (if list_ex (\<lambda>col. reads_builtin row (col_id col)) cols then None
      else Some (fold (\<lambda>col newRow. js_set (header col) (cell_or_empty row (col_id col)) newRow)
                   cols []))"

definition contentToAdd :: "TableFormValues \<Rightarrow> jsobj option" where
  "contentToAdd values =
     (case those (map (projectRow (columns values)) (data values)) of
        None \<Rightarrow> None
      | Some rows \<Rightarrow>
          Some [(''title'', JStr (title values)),
                (''columns'', JArr (map (\<lambda>col. JStr (header col)) (columns values))),
                (''data'', JArr (map (\<lambda>row. JObj (map (\<lambda>(k, v). (k, JStr v)) row)) rows))])"

text \<open>
  \<open>onSubmit\<close> hands \<open>{type: "table", ...contentToAdd}\<close> to the store's \<open>addContent\<close>, the callback
  of the render the form belongs to (\<open>contents_length\<close> and \<open>prev\<close> as in \<open>addContent\<close>).
\<close>

definition onSubmit ::
  "TableFormValues \<Rightarrow> string \<Rightarrow> string \<Rightarrow> nat \<Rightarrow> jsobj list \<Rightarrow> jsobj list option" where
  "onSubmit values uuid now contents_length prev =
     (case contentToAdd values of
        None \<Rightarrow> None
      | Some payload \<Rightarrow>
          Some (addContent contents_length (assign [(''type'', JStr ''table'')] payload)
                  uuid now prev))"

text \<open>
  \<open>tableFormSchema\<close>: a title of at least one character, at least one column, every header
  of at least one character, at least one data row. The form calls \<open>onSubmit\<close> only with
  values that pass it.
\<close>

definition tableFormSchema :: "TableFormValues \<Rightarrow> bool" where
  "tableFormSchema values \<longleftrightarrow>
     1 \<le> length (title values)
     \<and> list_all (\<lambda>col. 1 \<le> length (header col)) (columns values)
     \<and> 1 \<le> length (columns values)
     \<and> 1 \<le> length (data values)"

subsection \<open>Example store\<close>

text \<open>
  The store after adding a title item and then a text item, and a clock for later calls.
\<close>

definition item_welcome :: jsobj where
  "item_welcome =
     [(''type'', JStr ''title''), (''text'', JStr ''Welcome''), (''id'', JStr ''a''),
      (''order'', JNum 0), (''createdAt'', JStr ''2024-01-01T10:00:00.000Z''),
      (''updatedAt'', JStr ''2024-01-01T10:00:00.000Z'')]"

definition item_hello :: jsobj where
  "item_hello =
     [(''type'', JStr ''text''), (''content'', JStr ''Hello''), (''id'', JStr ''b''),
      (''order'', JNum 1), (''createdAt'', JStr ''2024-01-01T10:05:00.000Z''),
      (''updatedAt'', JStr ''2024-01-01T10:05:00.000Z'')]"

definition store_ab :: "jsobj list" where
  "store_ab = [item_welcome, item_hello]"

definition clock_ex :: "nat \<Rightarrow> string" where
  "clock_ex index = ''2024-01-02T09:00:00.000Z''"

subsection \<open>Example stored blobs\<close>

definition item_text :: "string \<Rightarrow> rat \<Rightarrow> jsobj" where
  "item_text ident n = [(''id'', JStr ident), (''type'', JStr ''text''), (''order'', JNum n)]"

text \<open>A stand-in for \<open>JSON.parse\<close> on four stored blobs; anything else does not parse.\<close>

definition parse_ex :: "string \<Rightarrow> jsval completion" where
  "parse_ex s =
     (if s = ''valid'' then Normal (JArr [JObj (item_text ''x'' 0), JObj (item_text ''y'' 1)])
      else if s = ''one-invalid'' then
        Normal (JArr [JObj (item_text ''x'' 0), JObj [(''id'', JStr ''y''), (''type'', JStr ''text'')]])
      else if s = ''not-array'' then Normal (JObj (item_text ''x'' 0))
      else if s = ''negative'' then Normal (JArr [JObj (item_text ''x'' (- 1))])
      else Throw)"

subsection \<open>Example form states\<close>

definition form_two_columns :: TableFormValues where
  "form_two_columns = \<lparr>title = ''T'',
     columns = [\<lparr>col_id = ''a'', header = ''Name''\<rparr>, \<lparr>col_id = ''b'', header = ''Age''\<rparr>],
     data = [[(''a'', ''Bob''), (''b'', ''7'')]]\<rparr>"

definition form_one_column :: TableFormValues where
  "form_one_column = \<lparr>title = ''T'',
     columns = [\<lparr>col_id = ''a'', header = ''Name''\<rparr>],
     data = [[(''a'', ''Bob'')]]\<rparr>"

definition form_alice :: TableFormValues where
  "form_alice = \<lparr>title = ''T'',
     columns = [\<lparr>col_id = ''a'', header = ''Name''\<rparr>],
     data = [[(''a'', ''Alice'')]]\<rparr>"

definition form_proto_header :: TableFormValues where
  "form_proto_header = \<lparr>title = ''T'',
     columns = [\<lparr>col_id = ''a'', header = ''__proto__''\<rparr>],
     data = [[(''a'', ''Bob'')]]\<rparr>"

definition form_duplicate_headers :: TableFormValues where
  "form_duplicate_headers = \<lparr>title = ''T'',
     columns = [\<lparr>col_id = ''a'', header = ''Name''\<rparr>, \<lparr>col_id = ''b'', header = ''Name''\<rparr>],
     data = [[(''a'', ''Alice''), (''b'', ''Bob'')]]\<rparr>"

section \<open>General lemmas\<close>

lemma length_map_index: "length (map_index f xs) = length xs"
  by (simp add: map_index_def)

lemma nth_map_index: "i < length xs \<Longrightarrow> map_index f xs ! i = f (xs ! i) i"
  by (simp add: map_index_def nth_enumerate_eq)

lemma map_of_update: "map_of (AList.update k v al) k' = (if k' = k then Some v else map_of al k')"
  by (simp add: update_conv')

subsection \<open>Object spread\<close>

lemma map_of_fold_update_pairs:
  "distinct (map fst xs) \<Longrightarrow>
   map_of (fold (\<lambda>(k, v). AList.update k v) xs tgt) k
     = (case map_of xs k of Some v \<Rightarrow> Some v | None \<Rightarrow> map_of tgt k)"
proof (induction xs arbitrary: tgt)
  case Nil
  then show ?case by simp
next
  case (Cons p xs)
  obtain k' v' where p: "p = (k', v')" by (cases p)
  from Cons.prems p have "map_of xs k' = None"
    by (simp add: map_of_eq_None_iff)
  with Cons p show ?case
    by (auto simp: map_of_update split: option.splits)
qed

lemma map_of_assign:
  "map_of (assign tgt src) k = (case map_of src k of Some v \<Rightarrow> Some v | None \<Rightarrow> map_of tgt k)"
  by (simp add: assign_def map_of_fold_update_pairs map_of_clearjunk)

lemma map_index_id: "(\<And>x i. x \<in> set xs \<Longrightarrow> f x i = x) \<Longrightarrow> map_index f xs = xs"
  by (rule nth_equalityI) (simp_all add: length_map_index nth_map_index)

subsection \<open>Validator\<close>

lemma validateContent_iff:
  "validateContent v \<longleftrightarrow>
     (\<exists>kvs t n. v = JObj kvs \<and> truthy (map_of kvs ''id'')
        \<and> map_of kvs ''type'' = Some (JStr t) \<and> t \<in> set validTypes
        \<and> map_of kvs ''order'' = Some (JNum n))"
proof (cases v)
  case (JObj kvs)
  have num: "is_number x \<longleftrightarrow> (\<exists>n. x = Some (JNum n))" for x
    by (cases x rule: is_number.cases) simp_all
  have ty: "t \<in> set validTypes \<Longrightarrow> t \<noteq> []" for t
    by (auto simp: validTypes_def)
  show ?thesis
    using ty by (auto simp: JObj num split: option.splits jsval.splits)
qed simp_all

lemma validated_is_object: "validateContent v \<Longrightarrow> JObj (object_fields v) = v"
  by (cases v) simp_all

lemma map_fields_validated: "list_all validateContent xs \<Longrightarrow> map (JObj \<circ> object_fields) xs = xs"
  by (induction xs) (simp_all add: validated_is_object)

subsection \<open>Dense orders\<close>

lemma orders_denseI:
  assumes "\<And>i. i < length cs \<Longrightarrow> map_of (cs ! i) ''order'' = Some (JNum (of_nat i))"
  shows "orders_dense cs"
  unfolding orders_dense_def using assms by (auto intro!: nth_equalityI)

lemma orders_denseD:
  assumes "orders_dense cs" "i < length cs"
  shows "map_of (cs ! i) ''order'' = Some (JNum (of_nat i))"
proof -
  from assms(1) have "map (\<lambda>item. map_of item ''order'') cs ! i
      = map (\<lambda>i. Some (JNum (of_nat i))) [0..<length cs] ! i"
    by (simp add: orders_dense_def)
  with assms(2) show ?thesis by simp
qed

lemma orders_dense_add: "orders_dense cs \<Longrightarrow> orders_dense (addContent (length cs) d u n cs)"
  by (rule orders_denseI)
     (auto simp: addContent_def Let_def nth_append map_of_update dest: orders_denseD)

lemma orders_dense_delete: "orders_dense (deleteContent ident cs)"
  by (rule orders_denseI)
     (simp add: deleteContent_def Let_def length_map_index nth_map_index map_of_update)

lemma orders_dense_reorder: "orders_dense cs \<Longrightarrow> orders_dense (reorderContent ident k now cs)"
proof (cases "findIndex (has_id ident) cs")
  case None
  assume "orders_dense cs"
  with None show ?thesis by (simp add: reorderContent_def)
next
  case (Some i)
  show ?thesis
    by (rule orders_denseI)
       (simp add: reorderContent_def Some Let_def length_map_index nth_map_index
          map_of_update del: length_append length_take length_drop)
qed

lemma orders_dense_apply_op: "orders_dense cs \<Longrightarrow> orders_dense (apply_op (length cs) op cs)"
  by (cases op) (simp_all add: orders_dense_add orders_dense_delete orders_dense_reorder)

lemma orders_dense_run_handler: "orders_dense cs \<Longrightarrow> orders_dense (run_handler [op] cs)"
  by (simp add: run_handler_def orders_dense_apply_op)

lemma orders_dense_fold:
  "orders_dense cs \<Longrightarrow> orders_dense (fold run_handler (map (\<lambda>op. [op]) ops) cs)"
  by (induction ops arbitrary: cs) (simp_all add: orders_dense_run_handler)

lemma orders_dense_run_ops: "orders_dense (run_ops ops)"
proof -
  have "orders_dense []" by (simp add: orders_dense_def)
  then show ?thesis
    unfolding run_ops_def run_events_def by (rule orders_dense_fold)
qed

subsection \<open>Form state\<close>

lemma backfill:
  "n \<le> length rows \<Longrightarrow>
   fold (\<lambda>i rs. rs[i := AList.update k v (rs ! i)]) [0..<n] rows
     = map (AList.update k v) (take n rows) @ drop n rows"
proof (induction n)
  case 0
  then show ?case by simp
next
  case (Suc n)
  then have n: "n < length rows" by simp
  have "fold (\<lambda>i rs. rs[i := AList.update k v (rs ! i)]) [0..<Suc n] rows
      = (map (AList.update k v) (take n rows) @ drop n rows)
          [n := AList.update k v ((map (AList.update k v) (take n rows) @ drop n rows) ! n)]"
    using Suc by simp
  also have "\<dots> = map (AList.update k v) (take (Suc n) rows) @ drop (Suc n) rows"
    using n by (simp add: list_update_append nth_append take_Suc_conv_app_nth
        upd_conv_take_nth_drop flip: Cons_nth_drop_Suc)
  finally show ?case .
qed

lemma data_fold_setValue:
  "data (fold (\<lambda>rowIndex. setValue_data rowIndex k v) is st)
     = fold (\<lambda>i rs. rs[i := AList.update k v (rs ! i)]) is (data st)"
  by (induction "is" arbitrary: st) (simp_all add: setValue_data_def)

lemma columns_fold_setValue:
  "columns (fold (\<lambda>rowIndex. setValue_data rowIndex k v) is st) = columns st"
  by (induction "is" arbitrary: st) (simp_all add: setValue_data_def)

lemma title_fold_setValue:
  "title (fold (\<lambda>rowIndex. setValue_data rowIndex k v) is st) = title st"
  by (induction "is" arbitrary: st) (simp_all add: setValue_data_def)

lemma data_handleAddColumn:
  "data (handleAddColumn c st) = map (AList.update c []) (data st)"
  by (simp add: handleAddColumn_def data_fold_setValue appendColumn_def backfill)

lemma columns_handleAddColumn:
  "columns (handleAddColumn c st) = columns st @ [\<lparr>col_id = c, header = []\<rparr>]"
  by (simp add: handleAddColumn_def columns_fold_setValue appendColumn_def)

lemma find_append:
  "List.find P (xs @ ys) = (case List.find P xs of None \<Rightarrow> List.find P ys | Some x \<Rightarrow> Some x)"
  by (induction xs) simp_all

lemma values_update: "snd ` set al \<subseteq> V \<Longrightarrow> v \<in> V \<Longrightarrow> snd ` set (AList.update k v al) \<subseteq> V"
  by (induction al) auto

lemma cell_or_empty_eq:
  "cell_or_empty row key = (case map_of row key of None \<Rightarrow> [] | Some v \<Rightarrow> v)"
  by (simp add: cell_or_empty_def split: option.splits)

lemma assign_type_payload:
  "map fst payload = [''title'', ''columns'', ''data''] \<Longrightarrow>
   assign [(''type'', JStr ''table'')] payload = (''type'', JStr ''table'') # payload"
  by (cases payload rule: list.exhaust; simp)
     (auto simp: assign_def Cons_eq_map_conv)

subsection \<open>Reordering\<close>

lemma findIndex_Some: "findIndex p xs = Some i \<Longrightarrow> i < length xs \<and> p (xs ! i)"
proof (induction xs arbitrary: i)
  case Nil
  then show ?case by simp
next
  case (Cons x xs)
  then show ?case by (cases "p x") auto
qed

lemma targetOrder_of_int: "targetOrder (of_int k) n = nat (max 0 (min k (int n)))"
proof -
  have "max 0 (min (of_int k) (of_nat n)) = (of_int (max 0 (min k (int n))) :: rat)"
    by (simp add: of_int_max of_int_min)
  then show ?thesis
    unfolding targetOrder_def by (simp only: floor_of_int)
qed

lemma content_of_stamp:
  "content_of (AList.update ''updatedAt'' u (AList.update ''order'' v item)) = content_of item"
  by (simp add: content_of_def delete_update_same delete_update delete_twist [of "''updatedAt''"])

lemma map_content_of_renumber:
  "map content_of (map_index (\<lambda>item index.
       AList.update ''updatedAt'' (u index) (AList.update ''order'' (v index) item)) xs)
     = map content_of xs"
  by (rule nth_equalityI) (simp_all add: length_map_index nth_map_index content_of_stamp)

lemma sortedContents_dense:
  assumes "orders_dense cs"
  shows "sortedContents cs = Some cs"
proof -
  have ord: "order_of (cs ! i) = Some (of_nat i)" if "i < length cs" for i
    using orders_denseD [OF assms that] by (simp add: order_of_def)
  have all: "list_all (\<lambda>item. order_of item \<noteq> None) cs"
    unfolding list_all_length using ord by simp
  have "map (\<lambda>item. the (order_of item)) cs = map of_nat [0..<length cs]"
    by (rule nth_equalityI) (simp_all add: ord)
  moreover have "sorted (map (of_nat :: nat \<Rightarrow> rat) [0..<length cs])"
    by (simp add: sorted_map sorted_wrt_iff_nth_less)
  ultimately have "sort_key (\<lambda>item. the (order_of item)) cs = cs"
    by (simp add: sort_key_id_if_sorted)
  with all show ?thesis
    by (simp add: sortedContents_def)
qed

lemma remove_inserted:
  "p \<le> length xs \<Longrightarrow>
   take p (take p xs @ [x] @ drop p xs) @ drop (Suc p) (take p xs @ [x] @ drop p xs) = xs"
  by (simp add: min_def)

lemma nth_inserted: "p \<le> length xs \<Longrightarrow> (take p xs @ [x] @ drop p xs) ! p = x"
  by (simp add: nth_append min_def)

lemma reorder_ex:
  "reorderContent ''a'' 2 clock_ex store_ab
     = [AList.update ''updatedAt'' (JStr (clock_ex 0)) (AList.update ''order'' (JNum 0) item_hello),
        AList.update ''updatedAt'' (JStr (clock_ex 1)) (AList.update ''order'' (JNum 1) item_welcome)]"
  by (simp add: reorderContent_def store_ab_def has_id_def item_welcome_def item_hello_def
      targetOrder_def map_index_def)

subsection \<open>Objects built by assignment\<close>

lemma set_insert_index_key: "set (insert_index_key n k v obj) = insert (k, v) (set obj)"
  by (induction obj) (auto split: option.splits)

lemma map_of_insert_index_key:
  "map_of obj k = None \<Longrightarrow>
   map_of (insert_index_key n k v obj) k' = (if k' = k then Some v else map_of obj k')"
  by (induction obj) (auto split: option.splits if_splits)

lemma map_of_js_set:
  "map_of (js_set k v obj) k'
     = (if k = ''__proto__'' then map_of obj k'
        else if k' = k then Some v else map_of obj k')"
  by (auto simp: js_set_def map_of_update map_of_insert_index_key map_add_def
      split: option.splits)

lemma keys_js_set:
  "fst ` set (js_set k v obj)
     = (if k = ''__proto__'' then fst ` set obj else insert k (fst ` set obj))"
  by (auto simp: js_set_def dom_update set_insert_index_key split: option.splits)

lemma values_js_set:
  "snd ` set obj \<subseteq> V \<Longrightarrow> v \<in> V \<Longrightarrow> snd ` set (js_set k v obj) \<subseteq> V"
  using values_update [of obj V v k]
  by (auto simp: js_set_def set_insert_index_key split: option.splits)

lemma distinct_insert_index_key:
  "distinct (map fst obj) \<Longrightarrow> k \<notin> fst ` set obj \<Longrightarrow>
   distinct (map fst (insert_index_key n k v obj))"
  by (induction obj) (auto simp: set_insert_index_key split: option.splits)

lemma distinct_js_set:
  "distinct (map fst obj) \<Longrightarrow> distinct (map fst (js_set k v obj))"
  by (auto simp: js_set_def distinct_update distinct_insert_index_key map_of_eq_None_iff
      split: option.splits)

lemma map_of_fold_js_set:
  "map_of (fold (\<lambda>col newRow. js_set (f col) (g col) newRow) cols acc) h
     = (if h = ''__proto__'' then map_of acc h
        else case List.find (\<lambda>col. f col = h) (rev cols) of
               None \<Rightarrow> map_of acc h
             | Some col \<Rightarrow> Some (g col))"
proof (induction cols arbitrary: acc)
  case Nil
  then show ?case by simp
next
  case (Cons c cols)
  show ?case
    by (simp add: Cons.IH find_append map_of_js_set split: option.splits)
qed

lemma keys_fold_js_set:
  "fst ` set (fold (\<lambda>col newRow. js_set (f col) (g col) newRow) cols acc)
     = (f ` set cols - {''__proto__''}) \<union> fst ` set acc"
  by (induction cols arbitrary: acc) (auto simp: keys_js_set)

lemma distinct_fold_js_set:
  "distinct (map fst acc) \<Longrightarrow>
   distinct (map fst (fold (\<lambda>col newRow. js_set (f col) (g col) newRow) cols acc))"
  by (induction cols arbitrary: acc) (simp_all add: distinct_js_set)

lemma values_fold_js_set:
  "snd ` set acc \<subseteq> V \<Longrightarrow> g ` set cols \<subseteq> V \<Longrightarrow>
   snd ` set (fold (\<lambda>col newRow. js_set (f col) (g col) newRow) cols acc) \<subseteq> V"
  by (induction cols arbitrary: acc) (simp_all add: values_js_set)

lemma col_id_fieldArrayFields:
  "map col_id (fieldArrayFields keys cols) = take (length cols) keys"
  "map header (fieldArrayFields keys cols) = take (length keys) (map header cols)"
  by (induction keys cols rule: list_induct2') (simp_all add: fieldArrayFields_def)

lemma those_map_Some:
  "list_all (\<lambda>x. f x \<noteq> None) xs \<Longrightarrow> those (map f xs) = Some (map (\<lambda>x. the (f x)) xs)"
  by (induction xs) auto

lemma projectRow_Some:
  "\<not> list_ex (\<lambda>col. reads_builtin row (col_id col)) cols \<Longrightarrow>
   projectRow cols row
     = Some (fold (\<lambda>col newRow. js_set (header col) (cell_or_empty row (col_id col)) newRow)
               cols [])"
  by (simp add: projectRow_def)

lemma map_of_projected:
  "map_of (fold (\<lambda>col newRow. js_set (header col) (cell_or_empty row (col_id col)) newRow) cols []) h
     = (if h = ''__proto__'' then None
        else case List.find (\<lambda>col. header col = h) (rev cols) of
               None \<Rightarrow> None
             | Some col \<Rightarrow> Some (case map_of row (col_id col) of None \<Rightarrow> [] | Some v \<Rightarrow> v))"
  by (simp add: map_of_fold_js_set cell_or_empty_eq split: option.splits)

section \<open>Order invariant\<close>

text \<open>
  C1, at two \<open>add\<close> calls made by one handler on the empty store: both read
  \<open>contents.length = 0\<close> from the same render, so both items carry \<open>order\<close> 0 and the
  orders are no permutation of \<open>[0, 2)\<close>. When a render follows every single operation,
  the \<open>order\<close> fields after any sequence of add, delete and reorder operations are exactly
  \<open>0, ..., N - 1\<close>, the item at position \<open>i\<close> carrying \<open>order = i\<close>.
\<close>

theorem two_adds_in_one_handler_share_order:
  "run_events
     [[Add [(''type'', JStr ''title''), (''text'', JStr ''Welcome'')] ''a''
         ''2024-01-01T10:00:00.000Z'',
       Add [(''type'', JStr ''text''), (''content'', JStr ''Hello'')] ''b''
         ''2024-01-01T10:00:00.000Z'']]
     = [[(''type'', JStr ''title''), (''text'', JStr ''Welcome''), (''id'', JStr ''a''),
         (''order'', JNum 0), (''createdAt'', JStr ''2024-01-01T10:00:00.000Z''),
         (''updatedAt'', JStr ''2024-01-01T10:00:00.000Z'')],
        [(''type'', JStr ''text''), (''content'', JStr ''Hello''), (''id'', JStr ''b''),
         (''order'', JNum 0), (''createdAt'', JStr ''2024-01-01T10:00:00.000Z''),
         (''updatedAt'', JStr ''2024-01-01T10:00:00.000Z'')]]
   \<and> \<not> orders_contiguous
        (run_events
          [[Add [(''type'', JStr ''title''), (''text'', JStr ''Welcome'')] ''a''
              ''2024-01-01T10:00:00.000Z'',
            Add [(''type'', JStr ''text''), (''content'', JStr ''Hello'')] ''b''
              ''2024-01-01T10:00:00.000Z'']])
   \<and> map (\<lambda>item. map_of item ''order'') (run_ops ops)
       = map (\<lambda>i. Some (JNum (of_nat i))) [0..<length (run_ops ops)]"
proof -
  have ev: "run_events
     [[Add [(''type'', JStr ''title''), (''text'', JStr ''Welcome'')] ''a''
         ''2024-01-01T10:00:00.000Z'',
       Add [(''type'', JStr ''text''), (''content'', JStr ''Hello'')] ''b''
         ''2024-01-01T10:00:00.000Z'']]
     = [[(''type'', JStr ''title''), (''text'', JStr ''Welcome''), (''id'', JStr ''a''),
         (''order'', JNum 0), (''createdAt'', JStr ''2024-01-01T10:00:00.000Z''),
         (''updatedAt'', JStr ''2024-01-01T10:00:00.000Z'')],
        [(''type'', JStr ''text''), (''content'', JStr ''Hello''), (''id'', JStr ''b''),
         (''order'', JNum 0), (''createdAt'', JStr ''2024-01-01T10:00:00.000Z''),
         (''updatedAt'', JStr ''2024-01-01T10:00:00.000Z'')]]"
    by (simp add: run_events_def run_handler_def addContent_def)
  have settled: "map (\<lambda>item. map_of item ''order'') (run_ops ops)
       = map (\<lambda>i. Some (JNum (of_nat i))) [0..<length (run_ops ops)]"
    using orders_dense_run_ops [of ops] by (simp only: orders_dense_def)
  show ?thesis
    unfolding ev using settled by (simp add: orders_contiguous_def)
qed

section \<open>Table form: columns and rows stay in step\<close>

text \<open>
  C5. \<open>addRow()\<close> keys the new row by the \<open>id\<close> of the field array's \<open>fields\<close>, which are the
  keys the form library generated, not the columns' synthetic ids: the new row's keys are
  those field keys, each once, every value the empty string. \<open>addColumn()\<close> appends the
  column and gives every existing row the new column id with the empty string. In the
  scenario of the specification \<open>{a: "Alice"}\<close> becomes \<open>{a: "Alice", b: ""}\<close>; with the field
  keys \<open>k1\<close>, \<open>k2\<close> a following \<open>addRow()\<close> adds the row \<open>{k1: "", k2: ""}\<close>, whose keys are not
  the column ids \<open>a\<close>, \<open>b\<close>.
\<close>

theorem addRow_keys_are_field_keys:
  "butlast (data (handleAddRow columnFields values)) = data values
   \<and> set (map fst (last (data (handleAddRow columnFields values))))
       = set (map col_id columnFields) - {''__proto__''}
   \<and> distinct (map fst (last (data (handleAddRow columnFields values))))
   \<and> set (map snd (last (data (handleAddRow columnFields values)))) \<subseteq> {[]}
   \<and> map col_id (fieldArrayFields keys cols) = take (length cols) keys
   \<and> columns (handleAddColumn newColId values)
       = columns values @ [\<lparr>col_id = newColId, header = []\<rparr>]
   \<and> data (handleAddColumn newColId values) = map (AList.update newColId []) (data values)
   \<and> handleAddColumn ''b'' form_alice
       = \<lparr>title = ''T'',
          columns = [\<lparr>col_id = ''a'', header = ''Name''\<rparr>, \<lparr>col_id = ''b'', header = []\<rparr>],
          data = [[(''a'', ''Alice''), (''b'', [])]]\<rparr>
   \<and> fieldArrayFields [''k1'', ''k2''] (columns (handleAddColumn ''b'' form_alice))
       = [\<lparr>col_id = ''k1'', header = ''Name''\<rparr>, \<lparr>col_id = ''k2'', header = []\<rparr>]
   \<and> handleAddRow
         (fieldArrayFields [''k1'', ''k2''] (columns (handleAddColumn ''b'' form_alice)))
         (handleAddColumn ''b'' form_alice)
       = \<lparr>title = ''T'',
          columns = [\<lparr>col_id = ''a'', header = ''Name''\<rparr>, \<lparr>col_id = ''b'', header = []\<rparr>],
          data = [[(''a'', ''Alice''), (''b'', [])], [(''k1'', []), (''k2'', [])]]\<rparr>"
proof -
  let ?row = "fold (\<lambda>col newRow. js_set (col_id col) [] newRow) columnFields []"
  have dat: "data (handleAddRow columnFields values) = data values @ [?row]"
    by (simp add: handleAddRow_def appendData_def)
  have keys: "set (map fst ?row) = set (map col_id columnFields) - {''__proto__''}"
    by (simp add: keys_fold_js_set)
  have dist: "distinct (map fst ?row)"
    by (rule distinct_fold_js_set) simp
  have "snd ` set ?row \<subseteq> {[]}"
    by (rule values_fold_js_set) auto
  then have vals: "set (map snd ?row) \<subseteq> {[]}"
    by simp
  have ex1: "handleAddColumn ''b'' form_alice
       = \<lparr>title = ''T'',
          columns = [\<lparr>col_id = ''a'', header = ''Name''\<rparr>, \<lparr>col_id = ''b'', header = []\<rparr>],
          data = [[(''a'', ''Alice''), (''b'', [])]]\<rparr>"
    by (simp add: handleAddColumn_def appendColumn_def setValue_data_def form_alice_def)
  have ex2: "fieldArrayFields [''k1'', ''k2'']
         [\<lparr>col_id = ''a'', header = ''Name''\<rparr>, \<lparr>col_id = ''b'', header = []\<rparr>]
       = [\<lparr>col_id = ''k1'', header = ''Name''\<rparr>, \<lparr>col_id = ''k2'', header = []\<rparr>]"
    by (simp add: fieldArrayFields_def)
  have k: "array_index ''k1'' = None" "array_index ''k2'' = None"
    by (simp_all add: array_index_def digit_value_def)
  have ex3: "handleAddRow [\<lparr>col_id = ''k1'', header = ''Name''\<rparr>, \<lparr>col_id = ''k2'', header = []\<rparr>]
         \<lparr>title = ''T'',
          columns = [\<lparr>col_id = ''a'', header = ''Name''\<rparr>, \<lparr>col_id = ''b'', header = []\<rparr>],
          data = [[(''a'', ''Alice''), (''b'', [])]]\<rparr>
       = \<lparr>title = ''T'',
          columns = [\<lparr>col_id = ''a'', header = ''Name''\<rparr>, \<lparr>col_id = ''b'', header = []\<rparr>],
          data = [[(''a'', ''Alice''), (''b'', [])], [(''k1'', []), (''k2'', [])]]\<rparr>"
    by (simp add: handleAddRow_def appendData_def js_set_def k)
  show ?thesis
    unfolding ex1 using keys dist vals ex2 ex3
    by (simp add: dat col_id_fieldArrayFields columns_handleAddColumn data_handleAddColumn)
qed

text \<open>
  C7. \<open>removeColumn(i)\<close> for a column that exists: the column leaves the list, every row
  loses the entries under that column's id and keeps all its other entries as they are, in
  order. The button is disabled while at most one column is left, so a click leaves the
  form as it is, and a form with a column keeps at least one.
\<close>

theorem removeColumn_frame:
  assumes "index < length (columns values)"
  shows "columns (handleRemoveColumn index values)
           = take index (columns values) @ drop (Suc index) (columns values)
       \<and> data (handleRemoveColumn index values)
           = map (filter (\<lambda>(k, v). k \<noteq> col_id (columns values ! index))) (data values)
       \<and> title (handleRemoveColumn index values) = title values
       \<and> clickRemoveColumn index values
           = (if length (columns values) \<le> 1 then values else handleRemoveColumn index values)
       \<and> 1 \<le> length (columns (clickRemoveColumn index values))"
proof -
  have del: "AList.delete k = filter (\<lambda>(k', v). k' \<noteq> k)" for k :: string
    by (rule ext) (auto simp: AList.delete_eq intro: filter_cong)
  have "1 \<le> length (columns (clickRemoveColumn index values))"
    using assms by (auto simp: clickRemoveColumn_def handleRemoveColumn_def removeColumn_def Let_def)
  then show ?thesis
    using assms
    by (simp add: handleRemoveColumn_def removeColumn_def Let_def clickRemoveColumn_def del)
qed

theorem removeColumn_frame_witness:
  "(0::nat) < length (columns form_two_columns)
   \<and> columns (handleRemoveColumn 0 form_two_columns) = [\<lparr>col_id = ''b'', header = ''Age''\<rparr>]
   \<and> data (handleRemoveColumn 0 form_two_columns) = [[(''b'', ''7'')]]
   \<and> clickRemoveColumn 0 form_two_columns = handleRemoveColumn 0 form_two_columns
   \<and> (0::nat) < length (columns form_one_column)
   \<and> clickRemoveColumn 0 form_one_column = form_one_column"
  using removeColumn_frame [of 0 form_two_columns] removeColumn_frame [of 0 form_one_column]
  by (simp add: form_two_columns_def form_one_column_def)

section \<open>Table form: submission\<close>

text \<open>
  C6. \<open>onSubmit\<close> on form values whose cell reads are text or missing: the payload, with
  \<open>type: "table"\<close> in front, goes to the store's \<open>addContent\<close>; its \<open>columns\<close> are the header
  strings in column order, without the ids. A projected row binds every header other than
  \<open>__proto__\<close> to the cell stored under the id of the column that carries it (the last such
  column if several do), a missing cell reading as the empty string; the header
  \<open>__proto__\<close> is never bound. So the form with title \<open>"T"\<close>, the one column
  \<open>{id: "a", header: "__proto__"}\<close> and the row \<open>{a: "Bob"}\<close> passes the schema and submits
  \<open>data: [{}]\<close>. For columns \<open>[{id: "a", header: "Name"}]\<close> and rows \<open>[{a: "Bob"}]\<close> the payload
  is \<open>{title: "T", columns: ["Name"], data: [{Name: "Bob"}]}\<close>.
\<close>

theorem submit_projection:
  "(list_all (\<lambda>row. \<not> list_ex (\<lambda>col. reads_builtin row (col_id col)) (columns values))
       (data values) \<longrightarrow>
      (\<exists>rows. those (map (projectRow (columns values)) (data values)) = Some rows
         \<and> onSubmit values uuid now contents_length prev
             = Some (addContent contents_length
                       [(''type'', JStr ''table''), (''title'', JStr (title values)),
                        (''columns'', JArr (map (\<lambda>col. JStr (header col)) (columns values))),
                        (''data'', JArr (map (\<lambda>row. JObj (map (\<lambda>(k, v). (k, JStr v)) row)) rows))]
                       uuid now prev)))
   \<and> (\<not> list_ex (\<lambda>col. reads_builtin row (col_id col)) (columns values) \<longrightarrow>
        (\<exists>newRow. projectRow (columns values) row = Some newRow
           \<and> (\<forall>h. map_of newRow h
                = (if h = ''__proto__'' then None
                   else case List.find (\<lambda>col. header col = h) (rev (columns values)) of
                          None \<Rightarrow> None
                        | Some col \<Rightarrow>
                            Some (case map_of row (col_id col) of None \<Rightarrow> [] | Some v \<Rightarrow> v)))))
   \<and> tableFormSchema form_proto_header
   \<and> contentToAdd form_proto_header
       = Some [(''title'', JStr ''T''), (''columns'', JArr [JStr ''__proto__'']),
               (''data'', JArr [JObj []])]
   \<and> contentToAdd form_one_column
       = Some [(''title'', JStr ''T''), (''columns'', JArr [JStr ''Name'']),
               (''data'', JArr [JObj [(''Name'', JStr ''Bob'')]])]"
proof -
  have sub: "\<exists>rows. those (map (projectRow (columns values)) (data values)) = Some rows
         \<and> onSubmit values uuid now contents_length prev
             = Some (addContent contents_length
                       [(''type'', JStr ''table''), (''title'', JStr (title values)),
                        (''columns'', JArr (map (\<lambda>col. JStr (header col)) (columns values))),
                        (''data'', JArr (map (\<lambda>row. JObj (map (\<lambda>(k, v). (k, JStr v)) row)) rows))]
                       uuid now prev)"
    if "list_all (\<lambda>row. \<not> list_ex (\<lambda>col. reads_builtin row (col_id col)) (columns values))
          (data values)"
  proof -
    from that have "list_all (\<lambda>row. projectRow (columns values) row \<noteq> None) (data values)"
      by (simp add: list_all_iff projectRow_def)
    then have "those (map (projectRow (columns values)) (data values))
        = Some (map (\<lambda>row. the (projectRow (columns values) row)) (data values))"
      by (rule those_map_Some)
    then show ?thesis
      by (simp add: onSubmit_def contentToAdd_def assign_type_payload)
  qed
  have look: "\<exists>newRow. projectRow (columns values) row = Some newRow
           \<and> (\<forall>h. map_of newRow h
                = (if h = ''__proto__'' then None
                   else case List.find (\<lambda>col. header col = h) (rev (columns values)) of
                          None \<Rightarrow> None
                        | Some col \<Rightarrow>
                            Some (case map_of row (col_id col) of None \<Rightarrow> [] | Some v \<Rightarrow> v)))"
    if "\<not> list_ex (\<lambda>col. reads_builtin row (col_id col)) (columns values)"
    using projectRow_Some [OF that] map_of_projected [of row "columns values"] by simp
  have ok: "tableFormSchema form_proto_header"
    by (simp add: tableFormSchema_def form_proto_header_def)
  have bug: "contentToAdd form_proto_header
       = Some [(''title'', JStr ''T''), (''columns'', JArr [JStr ''__proto__'']),
               (''data'', JArr [JObj []])]"
    by (simp add: contentToAdd_def form_proto_header_def projectRow_def reads_builtin_def
        js_set_def)
  have n: "array_index ''Name'' = None"
    by (simp add: array_index_def digit_value_def)
  have ex: "contentToAdd form_one_column
       = Some [(''title'', JStr ''T''), (''columns'', JArr [JStr ''Name'']),
               (''data'', JArr [JObj [(''Name'', JStr ''Bob'')]])]"
    by (simp add: contentToAdd_def form_one_column_def projectRow_def reads_builtin_def
        js_set_def n cell_or_empty_def)
  show ?thesis
    using sub look ok bug ex by blast
qed

theorem submit_projection_witness:
  "list_all (\<lambda>row. \<not> list_ex (\<lambda>col. reads_builtin row (col_id col)) (columns form_one_column))
      (data form_one_column)
   \<and> tableFormSchema form_one_column
   \<and> onSubmit form_one_column ''id-1'' ''2024-01-01T00:00:00.000Z'' 0 []
       = Some [[(''type'', JStr ''table''), (''title'', JStr ''T''),
                (''columns'', JArr [JStr ''Name'']),
                (''data'', JArr [JObj [(''Name'', JStr ''Bob'')]]),
                (''id'', JStr ''id-1''), (''order'', JNum 0),
                (''createdAt'', JStr ''2024-01-01T00:00:00.000Z''),
                (''updatedAt'', JStr ''2024-01-01T00:00:00.000Z'')]]
   \<and> projectRow (columns form_one_column) [(''a'', ''Bob'')] = Some [(''Name'', ''Bob'')]"
proof -
  have h: "list_all (\<lambda>row. \<not> list_ex (\<lambda>col. reads_builtin row (col_id col)) (columns form_one_column))
      (data form_one_column)"
    by (simp add: form_one_column_def reads_builtin_def)
  have ok: "tableFormSchema form_one_column"
    by (simp add: tableFormSchema_def form_one_column_def)
  have n: "array_index ''Name'' = None"
    by (simp add: array_index_def digit_value_def)
  have p: "projectRow (columns form_one_column) [(''a'', ''Bob'')] = Some [(''Name'', ''Bob'')]"
    by (simp add: form_one_column_def projectRow_def reads_builtin_def js_set_def n
        cell_or_empty_def)
  have t: "those (map (projectRow (columns form_one_column)) (data form_one_column))
      = Some [[(''Name'', ''Bob'')]]"
    using p by (simp add: form_one_column_def)
  from submit_projection [of form_one_column "''id-1''" "''2024-01-01T00:00:00.000Z''" 0 "[]" "[]"] h
  have "\<exists>rows. those (map (projectRow (columns form_one_column)) (data form_one_column)) = Some rows
         \<and> onSubmit form_one_column ''id-1'' ''2024-01-01T00:00:00.000Z'' 0 []
             = Some (addContent 0
                       [(''type'', JStr ''table''), (''title'', JStr (title form_one_column)),
                        (''columns'', JArr (map (\<lambda>col. JStr (header col)) (columns form_one_column))),
                        (''data'', JArr (map (\<lambda>row. JObj (map (\<lambda>(k, v). (k, JStr v)) row)) rows))]
                       ''id-1'' ''2024-01-01T00:00:00.000Z'' [])"
    by blast
  then have "onSubmit form_one_column ''id-1'' ''2024-01-01T00:00:00.000Z'' 0 []
       = Some [[(''type'', JStr ''table''), (''title'', JStr ''T''),
                (''columns'', JArr [JStr ''Name'']),
                (''data'', JArr [JObj [(''Name'', JStr ''Bob'')]]),
                (''id'', JStr ''id-1''), (''order'', JNum 0),
                (''createdAt'', JStr ''2024-01-01T00:00:00.000Z''),
                (''updatedAt'', JStr ''2024-01-01T00:00:00.000Z'')]]"
    unfolding t by (auto simp: form_one_column_def addContent_def)
  with h ok p show ?thesis by (simp only: simp_thms)
qed

text \<open>
  C10. Two columns with the same header: when both cell reads are text or missing, the
  projected row binds the header once, to the cell of the second column (and not at all
  for the header \<open>__proto__\<close>); the cell of the first column is not in the payload. The
  form with columns \<open>a\<close> and \<open>b\<close>, both headed \<open>"Name"\<close>, and the row
  \<open>{a: "Alice", b: "Bob"}\<close> passes the schema and submits \<open>data: [{Name: "Bob"}]\<close>.
\<close>

theorem duplicate_header_last_wins:
  "projectRow [\<lparr>col_id = i1, header = h\<rparr>, \<lparr>col_id = i2, header = h\<rparr>] row
     = (if reads_builtin row i1 \<or> reads_builtin row i2 then None
        else Some (if h = ''__proto__'' then [] else [(h, cell_or_empty row i2)]))
   \<and> tableFormSchema form_duplicate_headers
   \<and> map header (columns form_duplicate_headers) = [''Name'', ''Name'']
   \<and> contentToAdd form_duplicate_headers
       = Some [(''title'', JStr ''T''), (''columns'', JArr [JStr ''Name'', JStr ''Name'']),
               (''data'', JArr [JObj [(''Name'', JStr ''Bob'')]])]"
proof -
  have gen: "projectRow [\<lparr>col_id = i1, header = h\<rparr>, \<lparr>col_id = i2, header = h\<rparr>] row
     = (if reads_builtin row i1 \<or> reads_builtin row i2 then None
        else Some (if h = ''__proto__'' then [] else [(h, cell_or_empty row i2)]))"
    by (simp add: projectRow_def js_set_def split: option.splits)
  have n: "array_index ''Name'' = None"
    by (simp add: array_index_def digit_value_def)
  have ex: "contentToAdd form_duplicate_headers
       = Some [(''title'', JStr ''T''), (''columns'', JArr [JStr ''Name'', JStr ''Name'']),
               (''data'', JArr [JObj [(''Name'', JStr ''Bob'')]])]"
    by (simp add: contentToAdd_def form_duplicate_headers_def projectRow_def reads_builtin_def
        js_set_def n cell_or_empty_def)
  show ?thesis
    using gen ex by (simp add: tableFormSchema_def form_duplicate_headers_def)
qed

section \<open>Rehydration\<close>

text \<open>
  C4. Loading a stored blob. When the parsed value is an array and every element passes
  the validator, the collection is that array, element for element. When it is an array
  with an element that fails, or not an array at all, the collection is empty: nothing of
  the blob is kept. The validator accepts exactly the objects with a truthy \<open>id\<close>, a
  \<open>type\<close> among the six kinds and a number as \<open>order\<close>.
\<close>

theorem load_fail_closed:
  "(s \<noteq> [] \<and> JSON_parse s = Normal (JArr xs) \<and> list_all validateContent xs \<longrightarrow>
      map JObj (loadContents JSON_parse (Normal (Some s))) = xs)
   \<and> (JSON_parse s = Normal (JArr xs) \<and> \<not> list_all validateContent xs \<longrightarrow>
      loadContents JSON_parse (Normal (Some s)) = [])
   \<and> (JSON_parse s = Normal v \<and> (\<forall>ys. v \<noteq> JArr ys) \<longrightarrow>
      loadContents JSON_parse (Normal (Some s)) = [])
   \<and> (validateContent v \<longleftrightarrow>
        (\<exists>kvs t n. v = JObj kvs \<and> truthy (map_of kvs ''id'')
           \<and> map_of kvs ''type'' = Some (JStr t) \<and> t \<in> set validTypes
           \<and> map_of kvs ''order'' = Some (JNum n)))"
proof -
  have a: "map JObj (loadContents JSON_parse (Normal (Some s))) = xs"
    if "s \<noteq> []" "JSON_parse s = Normal (JArr xs)" "list_all validateContent xs"
    using that by (simp add: loadContents_def map_fields_validated)
  have b: "loadContents JSON_parse (Normal (Some s)) = []"
    if "JSON_parse s = Normal (JArr xs)" "\<not> list_all validateContent xs"
    using that by (simp add: loadContents_def)
  have c: "loadContents JSON_parse (Normal (Some s)) = []"
    if "JSON_parse s = Normal v" "\<forall>ys. v \<noteq> JArr ys"
    using that by (cases v) (simp_all add: loadContents_def)
  show ?thesis
    using a b c validateContent_iff [of v] by blast
qed

theorem load_fail_closed_witness:
  "loadContents parse_ex (Normal (Some ''valid'')) = [item_text ''x'' 0, item_text ''y'' 1]
   \<and> loadContents parse_ex (Normal (Some ''one-invalid'')) = []
   \<and> loadContents parse_ex (Normal (Some ''not-array'')) = []
   \<and> validateContent (JObj (item_text ''x'' 0))
   \<and> \<not> validateContent (JObj [(''id'', JStr ''y''), (''type'', JStr ''text'')])"
proof -
  have v: "validateContent (JObj (item_text ''x'' 0))" "validateContent (JObj (item_text ''y'' 1))"
    by (simp_all add: item_text_def validTypes_def)
  have nv: "\<not> validateContent (JObj [(''id'', JStr ''y''), (''type'', JStr ''text'')])"
    by simp
  have p1: "parse_ex ''valid'' = Normal (JArr [JObj (item_text ''x'' 0), JObj (item_text ''y'' 1)])"
    by (simp add: parse_ex_def)
  have p2: "parse_ex ''one-invalid''
      = Normal (JArr [JObj (item_text ''x'' 0), JObj [(''id'', JStr ''y''), (''type'', JStr ''text'')]])"
    by (simp add: parse_ex_def)
  have p3: "parse_ex ''not-array'' = Normal (JObj (item_text ''x'' 0))"
    by (simp add: parse_ex_def)
  have "map JObj (loadContents parse_ex (Normal (Some ''valid'')))
      = [JObj (item_text ''x'' 0), JObj (item_text ''y'' 1)]"
    using load_fail_closed [of "''valid''" parse_ex
        "[JObj (item_text ''x'' 0), JObj (item_text ''y'' 1)]" JNull] p1 v
    by simp
  then have a: "loadContents parse_ex (Normal (Some ''valid'')) = [item_text ''x'' 0, item_text ''y'' 1]"
    by (auto simp: map_eq_Cons_conv)
  have b: "loadContents parse_ex (Normal (Some ''one-invalid'')) = []"
    using load_fail_closed [of "''one-invalid''" parse_ex
        "[JObj (item_text ''x'' 0), JObj [(''id'', JStr ''y''), (''type'', JStr ''text'')]]" JNull]
      p2 nv by simp
  have c: "loadContents parse_ex (Normal (Some ''not-array'')) = []"
    using load_fail_closed [of "''not-array''" parse_ex "[]" "JObj (item_text ''x'' 0)"] p3
    by simp
  show ?thesis using a b c v nv by simp
qed

text \<open>
  C9. The validator looks at \<open>order\<close> only for being a number: an object with a truthy
  \<open>id\<close>, a known \<open>type\<close> and any number as \<open>order\<close> passes. So a stored array with one item
  of order \<open>n\<close> is loaded as it is, and its orders are a permutation of \<open>[0, 1)\<close> only for
  \<open>n = 0\<close>; an array of two items with the same order is loaded as it is too, and its
  orders are no permutation of \<open>[0, 2)\<close>. For the stored item with order \<open>-1\<close> the loaded
  collection breaks the order invariant.
\<close>

theorem validator_accepts_any_order:
  "(truthy (map_of kvs ''id'') \<and> map_of kvs ''type'' = Some (JStr t) \<and> t \<in> set validTypes
      \<and> map_of kvs ''order'' = Some (JNum n) \<longrightarrow> validateContent (JObj kvs))
   \<and> validateContent (JObj (item_text ident n)) = (ident \<noteq> [])
   \<and> (s \<noteq> [] \<and> ident \<noteq> [] \<and> JSON_parse s = Normal (JArr [JObj (item_text ident n)]) \<longrightarrow>
        loadContents JSON_parse (Normal (Some s)) = [item_text ident n])
   \<and> (s \<noteq> [] \<and> ident \<noteq> [] \<and> ident' \<noteq> []
        \<and> JSON_parse s = Normal (JArr [JObj (item_text ident n), JObj (item_text ident' n)]) \<longrightarrow>
        loadContents JSON_parse (Normal (Some s)) = [item_text ident n, item_text ident' n])
   \<and> orders_contiguous [item_text ident n] = (n = 0)
   \<and> \<not> orders_contiguous [item_text ident n, item_text ident' n]"
  by (simp add: validateContent_iff item_text_def validTypes_def loadContents_def
      orders_contiguous_def)

theorem validator_accepts_any_order_witness:
  "validateContent (JObj (item_text ''x'' (- 1)))
   \<and> validateContent (JObj (item_text ''x'' (1 / 2)))
   \<and> loadContents parse_ex (Normal (Some ''negative'')) = [item_text ''x'' (- 1)]
   \<and> \<not> orders_contiguous (loadContents parse_ex (Normal (Some ''negative'')))"
proof -
  have p: "parse_ex ''negative'' = Normal (JArr [JObj (item_text ''x'' (- 1))])"
    by (simp add: parse_ex_def)
  show ?thesis
    using validator_accepts_any_order [of "item_text ''x'' (- 1)" "''text''" "- 1" "''x''" "''negative''" parse_ex "''y''"]
      validator_accepts_any_order [of "item_text ''x'' (1 / 2)" "''text''" "1 / 2" "''x''" "''negative''" parse_ex "''y''"] p
    by (simp add: item_text_def validTypes_def)
qed

section \<open>Store operations\<close>

text \<open>
  C8, as the claim states it, at the store of a title item \<open>a\<close> and a text item \<open>b\<close> and
  \<open>update(b, {id: "z", order: 7})\<close>: the item's \<open>id\<close> becomes \<open>z\<close> and its \<open>order\<close> 7.
\<close>

theorem update_overwrites_base_fields_counterexample:
  "has_id ''b'' (store_ab ! 1)
   \<and> map_of (store_ab ! 1) ''order'' = Some (JNum 1)
   \<and> map_of (updateContent ''b'' [(''id'', JStr ''z''), (''order'', JNum 7)] clock_ex store_ab ! 1)
        ''id'' = Some (JStr ''z'')
   \<and> map_of (updateContent ''b'' [(''id'', JStr ''z''), (''order'', JNum 7)] clock_ex store_ab ! 1)
        ''order'' = Some (JNum 7)"
  by (simp add: updateContent_def map_index_def store_ab_def item_welcome_def item_hello_def
      has_id_def assign_def clock_ex_def)

text \<open>
  C8, amended. \<open>update(id, partialFields)\<close> keeps the length of the collection. An item
  whose id matches reads \<open>updatedAt\<close> from the clock, every other field that the update
  names from the update, and the rest from itself; so its \<open>id\<close>, \<open>type\<close>, \<open>order\<close> and
  \<open>createdAt\<close> are as before unless the update names them. Every other item is unchanged,
  and when no item has the id the whole collection is unchanged.
\<close>

theorem update_merges_given_fields:
  "length (updateContent ident contentUpdate now prev) = length prev
   \<and> (\<forall>j<length prev.
        if has_id ident (prev ! j)
        then (\<forall>k. map_of (updateContent ident contentUpdate now prev ! j) k
                = (if k = ''updatedAt'' then Some (JStr (now j))
                   else case map_of contentUpdate k of
                          Some v \<Rightarrow> Some v
                        | None \<Rightarrow> map_of (prev ! j) k))
        else updateContent ident contentUpdate now prev ! j = prev ! j)
   \<and> (\<forall>j<length prev. \<forall>k\<in>{''id'', ''type'', ''order'', ''createdAt''}.
        map_of contentUpdate k = None \<longrightarrow>
        map_of (updateContent ident contentUpdate now prev ! j) k = map_of (prev ! j) k)
   \<and> (list_all (\<lambda>item. \<not> has_id ident item) prev \<longrightarrow>
        updateContent ident contentUpdate now prev = prev)"
proof -
  have len: "length (updateContent ident contentUpdate now prev) = length prev"
    by (simp add: updateContent_def length_map_index)
  have hit: "map_of (updateContent ident contentUpdate now prev ! j) k
        = (if k = ''updatedAt'' then Some (JStr (now j))
           else case map_of contentUpdate k of
                  Some v \<Rightarrow> Some v
                | None \<Rightarrow> map_of (prev ! j) k)"
    if "j < length prev" "has_id ident (prev ! j)" for j k
    using that by (simp add: updateContent_def nth_map_index map_of_update map_of_assign)
  have miss: "updateContent ident contentUpdate now prev ! j = prev ! j"
    if "j < length prev" "\<not> has_id ident (prev ! j)" for j
    using that by (simp add: updateContent_def nth_map_index)
  have keep: "map_of (updateContent ident contentUpdate now prev ! j) k = map_of (prev ! j) k"
    if "j < length prev" "k \<in> {''id'', ''type'', ''order'', ''createdAt''}"
      "map_of contentUpdate k = None" for j k
  proof (cases "has_id ident (prev ! j)")
    case True
    from that(2) have "k \<noteq> ''updatedAt''" by (elim insertE emptyE) simp_all
    with hit [OF that(1) True, of k] that(3) show ?thesis by simp
  next
    case False
    with miss [OF that(1)] show ?thesis by simp
  qed
  have absent: "updateContent ident contentUpdate now prev = prev"
    if "list_all (\<lambda>item. \<not> has_id ident item) prev"
    unfolding updateContent_def using that
    by (intro map_index_id) (simp add: list_all_iff)
  have c2: "\<forall>j<length prev.
        if has_id ident (prev ! j)
        then (\<forall>k. map_of (updateContent ident contentUpdate now prev ! j) k
                = (if k = ''updatedAt'' then Some (JStr (now j))
                   else case map_of contentUpdate k of
                          Some v \<Rightarrow> Some v
                        | None \<Rightarrow> map_of (prev ! j) k))
        else updateContent ident contentUpdate now prev ! j = prev ! j"
  proof (intro allI impI)
    fix j assume j: "j < length prev"
    show "if has_id ident (prev ! j)
        then (\<forall>k. map_of (updateContent ident contentUpdate now prev ! j) k
                = (if k = ''updatedAt'' then Some (JStr (now j))
                   else case map_of contentUpdate k of
                          Some v \<Rightarrow> Some v
                        | None \<Rightarrow> map_of (prev ! j) k))
        else updateContent ident contentUpdate now prev ! j = prev ! j"
    proof (cases "has_id ident (prev ! j)")
      case True
      have "\<forall>k. map_of (updateContent ident contentUpdate now prev ! j) k
                = (if k = ''updatedAt'' then Some (JStr (now j))
                   else case map_of contentUpdate k of
                          Some v \<Rightarrow> Some v
                        | None \<Rightarrow> map_of (prev ! j) k)"
        by (rule allI) (rule hit [OF j True])
      with True show ?thesis by simp
    next
      case False
      with miss [OF j False] show ?thesis by simp
    qed
  qed
  have c3: "\<forall>j<length prev. \<forall>k\<in>{''id'', ''type'', ''order'', ''createdAt''}.
        map_of contentUpdate k = None \<longrightarrow>
        map_of (updateContent ident contentUpdate now prev ! j) k = map_of (prev ! j) k"
    by (intro allI impI ballI) (rule keep)
  have c4: "list_all (\<lambda>item. \<not> has_id ident item) prev \<longrightarrow>
        updateContent ident contentUpdate now prev = prev"
    by (intro impI) (rule absent)
  from len c2 c3 c4 show ?thesis
    by (intro conjI)
qed

theorem update_merges_given_fields_witness:
  "has_id ''b'' (store_ab ! 1) \<and> \<not> has_id ''b'' (store_ab ! 0)
   \<and> map_of [(''content'', JStr ''Hi'')] ''id'' = None
   \<and> updateContent ''b'' [(''content'', JStr ''Hi'')] clock_ex store_ab
       = [item_welcome,
          [(''type'', JStr ''text''), (''content'', JStr ''Hi''), (''id'', JStr ''b''),
           (''order'', JNum 1), (''createdAt'', JStr ''2024-01-01T10:05:00.000Z''),
           (''updatedAt'', JStr ''2024-01-02T09:00:00.000Z'')]]
   \<and> list_all (\<lambda>item. \<not> has_id ''c'' item) store_ab
   \<and> updateContent ''c'' [(''content'', JStr ''Hi'')] clock_ex store_ab = store_ab"
proof -
  have ev: "updateContent ''b'' [(''content'', JStr ''Hi'')] clock_ex store_ab
       = [item_welcome,
          [(''type'', JStr ''text''), (''content'', JStr ''Hi''), (''id'', JStr ''b''),
           (''order'', JNum 1), (''createdAt'', JStr ''2024-01-01T10:05:00.000Z''),
           (''updatedAt'', JStr ''2024-01-02T09:00:00.000Z'')]]"
    by (simp add: updateContent_def map_index_def store_ab_def item_welcome_def item_hello_def
        has_id_def assign_def clock_ex_def)
  have ab: "list_all (\<lambda>item. \<not> has_id ''c'' item) store_ab"
    by (simp add: store_ab_def item_welcome_def item_hello_def has_id_def)
  have ids: "has_id ''b'' (store_ab ! 1)" "\<not> has_id ''b'' (store_ab ! 0)"
    by (simp_all add: store_ab_def item_welcome_def item_hello_def has_id_def)
  from update_merges_given_fields [of "''c''" "[(''content'', JStr ''Hi'')]" clock_ex store_ab] ab
  have "updateContent ''c'' [(''content'', JStr ''Hi'')] clock_ex store_ab = store_ab"
    by blast
  with ev ab ids show ?thesis
    by simp
qed

text \<open>
  C2, at the store of the specification's scenario (a title item, then a text item):
  deleting the title item leaves the text item with \<open>order\<close> 0 and with the \<open>updatedAt\<close> it
  had. In general \<open>deleteContent\<close> leaves the \<open>updatedAt\<close> of every remaining item as it
  was; it never reads the clock. The rest of the statement holds: the items with the id
  are gone, the remaining items keep their fields other than \<open>order\<close> and their relative
  order, and their \<open>order\<close> values are \<open>0, ..., N' - 1\<close> for the \<open>N'\<close> items that remain.
\<close>

theorem delete_leaves_updatedAt:
  "store_ab
     = run_ops [Add [(''type'', JStr ''title''), (''text'', JStr ''Welcome'')] ''a''
                  ''2024-01-01T10:00:00.000Z'',
                Add [(''type'', JStr ''text''), (''content'', JStr ''Hello'')] ''b''
                  ''2024-01-01T10:05:00.000Z'']
   \<and> deleteContent ''a'' store_ab
       = [[(''type'', JStr ''text''), (''content'', JStr ''Hello''), (''id'', JStr ''b''),
           (''order'', JNum 0), (''createdAt'', JStr ''2024-01-01T10:05:00.000Z''),
           (''updatedAt'', JStr ''2024-01-01T10:05:00.000Z'')]]
   \<and> map (\<lambda>item. map_of item ''updatedAt'') (deleteContent ident prev)
       = map (\<lambda>item. map_of item ''updatedAt'') (filter (\<lambda>item. \<not> has_id ident item) prev)
   \<and> map (AList.delete ''order'') (deleteContent ident prev)
       = map (AList.delete ''order'') (filter (\<lambda>item. \<not> has_id ident item) prev)
   \<and> map (\<lambda>item. map_of item ''order'') (deleteContent ident prev)
       = map (\<lambda>i. Some (JNum (of_nat i))) [0..<length (deleteContent ident prev)]"
proof -
  have upd: "map (\<lambda>item. map_of item ''updatedAt'') (deleteContent ident prev)
       = map (\<lambda>item. map_of item ''updatedAt'') (filter (\<lambda>item. \<not> has_id ident item) prev)"
    by (rule nth_equalityI)
       (simp_all add: deleteContent_def Let_def length_map_index nth_map_index map_of_update)
  have rest: "map (AList.delete ''order'') (deleteContent ident prev)
       = map (AList.delete ''order'') (filter (\<lambda>item. \<not> has_id ident item) prev)"
    by (rule nth_equalityI)
       (simp_all add: deleteContent_def Let_def length_map_index nth_map_index delete_update_same)
  have ord: "map (\<lambda>item. map_of item ''order'') (deleteContent ident prev)
       = map (\<lambda>i. Some (JNum (of_nat i))) [0..<length (deleteContent ident prev)]"
    using orders_dense_delete [of ident prev] by (simp only: orders_dense_def)
  have st: "store_ab
     = run_ops [Add [(''type'', JStr ''title''), (''text'', JStr ''Welcome'')] ''a''
                  ''2024-01-01T10:00:00.000Z'',
                Add [(''type'', JStr ''text''), (''content'', JStr ''Hello'')] ''b''
                  ''2024-01-01T10:05:00.000Z'']"
    by (simp add: store_ab_def item_welcome_def item_hello_def run_ops_def run_events_def
        run_handler_def addContent_def)
  have del: "deleteContent ''a'' store_ab
       = [[(''type'', JStr ''text''), (''content'', JStr ''Hello''), (''id'', JStr ''b''),
           (''order'', JNum 0), (''createdAt'', JStr ''2024-01-01T10:05:00.000Z''),
           (''updatedAt'', JStr ''2024-01-01T10:05:00.000Z'')]]"
    by (simp add: store_ab_def item_welcome_def item_hello_def deleteContent_def
        map_index_def has_id_def)
  show ?thesis
    using st del upd rest ord by (simp only: simp_thms)
qed

text \<open>
  C3, as the claim states it, at the store of two items \<open>a\<close>, \<open>b\<close> and \<open>reorder(a, 2)\<close>: the
  claimed position is \<open>min(max(2, 0), 2) = 2\<close>, but the sorted snapshot is \<open>b\<close>, \<open>a\<close>, with the
  item at position 1; a snapshot of two items has no position 2.
\<close>

theorem reorder_position_counterexample:
  "findIndex (has_id ''a'') store_ab = Some 0
   \<and> sortedContents (reorderContent ''a'' 2 clock_ex store_ab)
       = Some (reorderContent ''a'' 2 clock_ex store_ab)
   \<and> map (\<lambda>item. map_of item ''id'') (reorderContent ''a'' 2 clock_ex store_ab)
       = [Some (JStr ''b''), Some (JStr ''a'')]
   \<and> findIndex (has_id ''a'') (reorderContent ''a'' 2 clock_ex store_ab) = Some 1
   \<and> nat (min (max 2 0) (int (length store_ab))) = 2"
proof -
  have f: "findIndex (has_id ''a'') store_ab = Some 0"
    by (simp add: store_ab_def has_id_def item_welcome_def)
  have s: "sortedContents (reorderContent ''a'' 2 clock_ex store_ab)
       = Some (reorderContent ''a'' 2 clock_ex store_ab)"
    unfolding reorder_ex
    by (simp add: sortedContents_def order_of_def item_welcome_def item_hello_def)
  have ids: "map (\<lambda>item. map_of item ''id'') (reorderContent ''a'' 2 clock_ex store_ab)
       = [Some (JStr ''b''), Some (JStr ''a'')]"
    unfolding reorder_ex by (simp add: item_welcome_def item_hello_def)
  have pos: "findIndex (has_id ''a'') (reorderContent ''a'' 2 clock_ex store_ab) = Some 1"
    unfolding reorder_ex by (simp add: has_id_def item_welcome_def item_hello_def)
  have n: "nat (min (max 2 0) (int (length store_ab))) = 2"
    by (simp add: store_ab_def)
  show ?thesis
    using f s ids pos n by (simp only: simp_thms)
qed

text \<open>
  C3, amended. Let the store hold \<open>N\<close> items, the first with the given id at index \<open>i\<close>, and
  let \<open>k\<close> be an integer. After \<open>reorder(id, k)\<close> the sorted snapshot is the collection itself;
  it has \<open>N\<close> items; the moved item stands at position \<open>min(max(k, 0), N - 1)\<close>; the
  snapshot without that position is the old collection without index \<open>i\<close>, in the same
  order (items compared without \<open>order\<close> and \<open>updatedAt\<close>); every item's \<open>updatedAt\<close> is the
  clock reading of its position and its \<open>order\<close> is its position.
\<close>

theorem reorder_places_item_clamped:
  assumes "findIndex (has_id ident) prev = Some i"
  shows "(let res = reorderContent ident (of_int k) now prev;
              p = nat (min (max k 0) (int (length prev) - 1))
          in has_id ident (prev ! i)
           \<and> sortedContents res = Some res
           \<and> length res = length prev
           \<and> p < length res
           \<and> content_of (res ! p) = content_of (prev ! i)
           \<and> map content_of (take p res @ drop (Suc p) res)
               = map content_of (take i prev @ drop (Suc i) prev)
           \<and> map (\<lambda>item. map_of item ''updatedAt'') res
               = map (\<lambda>j. Some (JStr (now j))) [0..<length prev]
           \<and> map (\<lambda>item. map_of item ''order'') res
               = map (\<lambda>j. Some (JNum (of_nat j))) [0..<length prev])"
proof -
  define items where "items = take i prev @ drop (Suc i) prev"
  define p where "p = nat (min (max k 0) (int (length prev) - 1))"
  define items' where "items' = take p items @ [prev ! i] @ drop p items"
  define res where "res = reorderContent ident (of_int k) now prev"
  from assms have i: "i < length prev" and hit: "has_id ident (prev ! i)"
    using findIndex_Some [of "has_id ident" prev i] by simp_all
  have len_items: "length items = length prev - 1"
    using i by (simp add: items_def)
  have t: "targetOrder (of_int k) (length items) = p"
    using i by (simp add: targetOrder_of_int len_items p_def max.commute of_nat_diff)
  have p_le: "p \<le> length items"
    using i by (simp add: p_def len_items)
  have len_items': "length items' = length prev"
    using i p_le by (simp add: items'_def len_items)
  have res: "res = map_index (\<lambda>item index.
        AList.update ''updatedAt'' (JStr (now index))
          (AList.update ''order'' (JNum (of_nat index)) item)) items'"
    unfolding res_def reorderContent_def assms option.case Let_def
    by (simp only: t flip: items_def items'_def)
  have len: "length res = length prev"
    by (simp add: res length_map_index len_items')
  have dense: "orders_dense res"
    by (rule orders_denseI) (simp add: res length_map_index nth_map_index map_of_update)
  have cont: "map content_of res = map content_of items'"
    unfolding res by (rule map_content_of_renumber)
  have p_lt: "p < length res"
    using p_le i by (simp add: len len_items)
  have at_p: "content_of (res ! p) = content_of (prev ! i)"
  proof -
    have "content_of (res ! p) = map content_of res ! p"
      using p_lt by simp
    also have "\<dots> = content_of (items' ! p)"
      using p_lt by (simp add: cont len len_items')
    also have "items' ! p = prev ! i"
      unfolding items'_def using p_le by (rule nth_inserted)
    finally show ?thesis .
  qed
  have others: "map content_of (take p res @ drop (Suc p) res) = map content_of items"
  proof -
    have "map content_of (take p res @ drop (Suc p) res)
        = take p (map content_of res) @ drop (Suc p) (map content_of res)"
      by (simp add: take_map drop_map)
    also have "\<dots> = map content_of (take p items' @ drop (Suc p) items')"
      by (simp add: cont take_map drop_map)
    also have "take p items' @ drop (Suc p) items' = items"
      unfolding items'_def using p_le by (rule remove_inserted)
    finally show ?thesis .
  qed
  have upd: "map (\<lambda>item. map_of item ''updatedAt'') res
               = map (\<lambda>j. Some (JStr (now j))) [0..<length prev]"
    by (rule nth_equalityI)
       (simp_all add: res length_map_index nth_map_index map_of_update len_items')
  have ord: "map (\<lambda>item. map_of item ''order'') res
               = map (\<lambda>j. Some (JNum (of_nat j))) [0..<length prev]"
    using dense by (simp add: orders_dense_def len)
  show ?thesis
    using hit sortedContents_dense [OF dense] len p_lt at_p others upd ord
    unfolding Let_def res_def [symmetric] p_def [symmetric] items_def [symmetric]
    by simp
qed

theorem reorder_places_item_clamped_witness:
  "findIndex (has_id ''a'') store_ab = Some 0
   \<and> nat (min (max 2 0) (int (length store_ab) - 1)) = 1
   \<and> sortedContents (reorderContent ''a'' 2 clock_ex store_ab)
       = Some (reorderContent ''a'' 2 clock_ex store_ab)
   \<and> content_of (reorderContent ''a'' 2 clock_ex store_ab ! 1) = content_of item_welcome
   \<and> map content_of (take 1 (reorderContent ''a'' 2 clock_ex store_ab)
                      @ drop 2 (reorderContent ''a'' 2 clock_ex store_ab))
       = [content_of item_hello]"
proof -
  have f: "findIndex (has_id ''a'') store_ab = Some 0"
    by (simp add: store_ab_def has_id_def item_welcome_def)
  have n: "nat (min (max 2 0) (int (length store_ab) - 1)) = 1"
    by (simp add: store_ab_def)
  have s0: "store_ab ! 0 = item_welcome" "take 0 store_ab @ drop (Suc 0) store_ab = [item_hello]"
    by (simp_all add: store_ab_def)
  have two: "Suc 1 = 2" "rat_of_int 2 = 2"
    by simp_all
  from reorder_places_item_clamped [OF f, of 2 clock_ex]
  have "sortedContents (reorderContent ''a'' 2 clock_ex store_ab)
       = Some (reorderContent ''a'' 2 clock_ex store_ab)
   \<and> content_of (reorderContent ''a'' 2 clock_ex store_ab ! 1) = content_of item_welcome
   \<and> map content_of (take 1 (reorderContent ''a'' 2 clock_ex store_ab)
                      @ drop 2 (reorderContent ''a'' 2 clock_ex store_ab))
       = map content_of [item_hello]"
    unfolding Let_def n s0 two by (simp only: simp_thms)
  with f n show ?thesis
    by (simp only: simp_thms list.map)
qed

end
